theory Spec2Isabelle
  imports Complex_Main
begin

section \<open>JavaScript values\<close>

text \<open>
  The two rules are JavaScript functions. Their option argument can be any JavaScript
  value, so the values the rules inspect are modelled as a datatype. A Number is NaN, one
  of the two infinities, or a finite value; the finite doubles are a subset of the
  rationals and the rules only compare and print them, so a finite Number is a rational.
  An object is the list of its own properties (plain data objects, without accessors).
\<close>

datatype js_number = NaN | PosInfinity | NegInfinity | Num rat

datatype js_value =
    Undefined
  | Null
  | Boolean bool
  | Number js_number
  | String string
  | Object "(string \<times> js_value) list"
  | Array "js_value list"
  | Function

datatype error = TypeError

text \<open>A statement completes normally or throws; the state reached so far is kept.\<close>

datatype completion = Normal | Throw error

text \<open>The \<open>typeof\<close> operator.\<close>

fun typeof :: "js_value \<Rightarrow> string" where
  "typeof Undefined = ''undefined''"
| "typeof Null = ''object''"
| "typeof (Boolean b) = ''boolean''"
| "typeof (Number n) = ''number''"
| "typeof (String s) = ''string''"
| "typeof (Object ps) = ''object''"
| "typeof (Array vs) = ''object''"
| "typeof Function = ''function''"

text \<open>\<open>isNaN\<close> on a Number.\<close>

fun isNaN :: "js_number \<Rightarrow> bool" where
  "isNaN NaN = True"
| "isNaN n = False"

text \<open>\<open>Boolean(v)\<close>, the truthiness of a value.\<close>

fun truthy :: "js_value \<Rightarrow> bool" where
  "truthy Undefined = False"
| "truthy Null = False"
| "truthy (Boolean b) = b"
| "truthy (Number n) = (\<not> isNaN n \<and> n \<noteq> Num 0)"
| "truthy (String s) = (s \<noteq> [])"
| "truthy (Object ps) = True"
| "truthy (Array vs) = True"
| "truthy Function = True"

text \<open>
  Property access \<open>v.name\<close> for a name that is not an array index: it throws on
  \<open>undefined\<close> and \<open>null\<close>, and yields \<open>undefined\<close> where the property is
  missing.
\<close>

fun get_property :: "js_value \<Rightarrow> string \<Rightarrow> error + js_value" where
  "get_property Undefined name = Inl TypeError"
| "get_property Null name = Inl TypeError"
| "get_property (Object ps) name =
     (case map_of ps name of None \<Rightarrow> Inr Undefined | Some v \<Rightarrow> Inr v)"
| "get_property v name = Inr Undefined"

text \<open>The relational operators \<open>a > b\<close> and \<open>a <= b\<close> on Numbers.\<close>

fun js_less :: "js_number \<Rightarrow> js_number \<Rightarrow> bool" where
  "js_less NaN b = False"
| "js_less a NaN = False"
| "js_less PosInfinity b = False"
| "js_less a PosInfinity = True"
| "js_less a NegInfinity = False"
| "js_less NegInfinity b = True"
| "js_less (Num x) (Num y) = (x < y)"

definition js_gt :: "js_number \<Rightarrow> js_number \<Rightarrow> bool" where
  "js_gt a b = js_less b a"

definition js_le :: "js_number \<Rightarrow> js_number \<Rightarrow> bool" where
  "js_le a b = (\<not> isNaN a \<and> \<not> isNaN b \<and> \<not> js_less b a)"

text \<open>
  A line, column or offset is a number or \<open>null\<close>. In \<open>a - b\<close> and \<open>a > b\<close>
  the value \<open>null\<close> counts as \<open>0\<close>.
\<close>

fun to_number :: "int option \<Rightarrow> int" where
  "to_number None = 0"
| "to_number (Some n) = n"

text \<open>\<open>xs[i]\<close>: \<open>undefined\<close> outside the array.\<close>

definition element_at :: "'a list \<Rightarrow> int \<Rightarrow> 'a option" where
  "element_at xs i = (if 0 \<le> i \<and> i < int (length xs) then Some (xs ! nat i) else None)"

section \<open>The syntax tree\<close>

record point =
  line :: "int option"
  column :: "int option"
  offset :: "int option"

record position =
  pos_start :: "point option"
  pos_end :: "point option"

text \<open>
  A node has a type, for a literal its value, for an image its alternative text, a
  position unless it is generated, and children unless it is a leaf.
\<close>

datatype node =
  Node (node_type: string) (node_value: "string option") (alt: "string option")
       (node_position: "position option") (node_children: "node list option")

text \<open>
  Modelled from the spec: \<open>unist-util-position\<close>, the position utility. \<open>start(node)\<close>
  and \<open>end(node)\<close> return a point whose line and column are \<open>null\<close> when the node, its
  position or the coordinate is absent (or zero). The list rule calls them \<open>start\<close> and
  \<open>end\<close>; here they are \<open>position_start\<close> and \<open>position_end\<close>, and the argument is
  \<open>None\<close> where the rule passes \<open>undefined\<close>.
\<close>

definition or_null :: "int option \<Rightarrow> int option" where
  "or_null v = (if v = Some 0 then None else v)"

definition point_of :: "point option \<Rightarrow> point" where
  "point_of p =
     (case p of
        None \<Rightarrow> \<lparr>line = None, column = None, offset = None\<rparr>
      | Some pt \<Rightarrow> \<lparr>line = or_null (line pt), column = or_null (column pt), offset = offset pt\<rparr>)"

definition position_start :: "node option \<Rightarrow> point" where
  "position_start n =
     point_of (case n of None \<Rightarrow> None
               | Some nd \<Rightarrow> (case node_position nd of None \<Rightarrow> None | Some p \<Rightarrow> pos_start p))"

definition position_end :: "node option \<Rightarrow> point" where
  "position_end n =
     point_of (case n of None \<Rightarrow> None
               | Some nd \<Rightarrow> (case node_position nd of None \<Rightarrow> None | Some p \<Rightarrow> pos_end p))"

text \<open>
  Modelled from the spec: \<open>unist-util-generated\<close>. A node is generated when it has no
  position, or its position lacks a start or end line or column (absent or zero).
\<close>

definition falsy_coordinate :: "int option \<Rightarrow> bool" where
  "falsy_coordinate v = (v = None \<or> v = Some 0)"

definition optional_point :: "point option \<Rightarrow> point" where
  "optional_point p =
     (case p of None \<Rightarrow> \<lparr>line = None, column = None, offset = None\<rparr> | Some pt \<Rightarrow> pt)"

definition generated :: "node \<Rightarrow> bool" where
  "generated node =
     (let start =
            optional_point (case node_position node of None \<Rightarrow> None | Some p \<Rightarrow> pos_start p);
          end =
            optional_point (case node_position node of None \<Rightarrow> None | Some p \<Rightarrow> pos_end p)
      in falsy_coordinate (line start) \<or> falsy_coordinate (column start) \<or>
         falsy_coordinate (line end) \<or> falsy_coordinate (column end))"

text \<open>
  Modelled from the spec: \<open>mdast-util-to-string\<close>, the plain-text flattening: the value
  of a literal, the alternative text of an image, otherwise the texts of the children
  concatenated. The heading rule takes the flattening as a parameter; this is the
  instance used on concrete trees.
\<close>

fun toString :: "node \<Rightarrow> string" where
  "toString (Node t v a p cs) =
     (case v of
        Some s \<Rightarrow> s
      | None \<Rightarrow>
          (case a of
             Some s \<Rightarrow> s
           | None \<Rightarrow> (case cs of None \<Rightarrow> [] | Some ns \<Rightarrow> concat (map toString ns))))"

section \<open>The file and the traversal\<close>

text \<open>
  \<open>file.message(reason, place)\<close> appends a message to the file. The place is a node
  (the message is anchored at the node's range) or a range given by two points.
\<close>

datatype place = OfNode node | OfRange point point

record message =
  reason :: string
  place :: place

record vfile =
  messages :: "message list"

text \<open>What a rule can touch: the tree it is given and the file it reports to.\<close>

record world =
  w_tree :: node
  w_file :: vfile

definition file_message :: "string \<Rightarrow> place \<Rightarrow> world \<Rightarrow> world" where
  "file_message r p w =
     w\<lparr>w_file := (w_file w)\<lparr>messages := messages (w_file w) @ [\<lparr>reason = r, place = p\<rparr>]\<rparr>\<rparr>"

text \<open>
  \<open>xs.forEach(f)\<close>: calls \<open>f(x, index)\<close> on each element in order; a throw ends the loop.
\<close>

fun forEach_from ::
    "nat \<Rightarrow> ('a \<Rightarrow> nat \<Rightarrow> 's \<Rightarrow> completion \<times> 's) \<Rightarrow> 'a list \<Rightarrow> 's \<Rightarrow> completion \<times> 's" where
  "forEach_from i f [] s = (Normal, s)"
| "forEach_from i f (x # xs) s =
     (case f x i s of
        (Normal, s') \<Rightarrow> forEach_from (Suc i) f xs s'
      | (Throw e, s') \<Rightarrow> (Throw e, s'))"

definition forEach ::
    "('a \<Rightarrow> nat \<Rightarrow> 's \<Rightarrow> completion \<times> 's) \<Rightarrow> 'a list \<Rightarrow> 's \<Rightarrow> completion \<times> 's" where
  "forEach f xs s = forEach_from 0 f xs s"

text \<open>
  Modelled from the spec: \<open>unist-util-visit\<close>. \<open>visit(tree, type, visitor)\<close> walks the
  whole tree in document order, parents before children, and calls the visitor on each
  node of the given type.
\<close>

fun preorder :: "node \<Rightarrow> node list" where
  "preorder (Node t v a p cs) =
     Node t v a p cs # (case cs of None \<Rightarrow> [] | Some ns \<Rightarrow> concat (map preorder ns))"

definition visit ::
    "node \<Rightarrow> string \<Rightarrow> (node \<Rightarrow> 's \<Rightarrow> completion \<times> 's) \<Rightarrow> 's \<Rightarrow> completion \<times> 's" where
  "visit t ty visitor s =
     forEach (\<lambda>n index. visitor n) (filter (\<lambda>n. node_type n = ty) (preorder t)) s"

section \<open>maximum-heading-length\<close>

text \<open>
  \<open>'' + preferred\<close> turns the threshold into text with the language's conversion of a
  Number to a String. The rule takes that conversion as a parameter. The instance below
  agrees with JavaScript on \<open>NaN\<close>, the infinities and the integers of magnitude below
  \<open>10 ^ 21\<close>, and is used on such thresholds only.
\<close>

fun digits :: "nat \<Rightarrow> string" where
  "digits n =
     (if n < 10 then [''0123456789'' ! n]
      else digits (n div 10) @ [''0123456789'' ! (n mod 10)])"

declare digits.simps [simp del]

fun integerToString :: "js_number \<Rightarrow> string" where
  "integerToString NaN = ''NaN''"
| "integerToString PosInfinity = ''Infinity''"
| "integerToString NegInfinity = ''-Infinity''"
| "integerToString (Num q) =
     (if q < 0 then ''-'' @ digits (nat \<lfloor>- q\<rfloor>) else digits (nat \<lfloor>q\<rfloor>))"

text \<open>
  \<open>var preferred = typeof option === 'number' && !isNaN(option) ? option : 60\<close>.
  \<open>typeof option\<close> is \<open>'number'\<close> for the Numbers and for nothing else.
\<close>

definition maximumHeadingLength_preferred :: "js_value \<Rightarrow> js_number" where
  "maximumHeadingLength_preferred option =
     (case option of
        Number n \<Rightarrow> (if typeof option = ''number'' \<and> \<not> isNaN n then n else Num 60)
      | _ \<Rightarrow> Num 60)"

text \<open>The visitor of the heading rule; \<open>toString(node).length\<close> is a Number.\<close>

definition maximumHeadingLength_visitor ::
    "(node \<Rightarrow> string) \<Rightarrow> (js_number \<Rightarrow> string) \<Rightarrow> js_number \<Rightarrow> node \<Rightarrow> world \<Rightarrow>
       completion \<times> world" where
  "maximumHeadingLength_visitor toStr numberToString preferred node w =
     (if \<not> generated node \<and> js_gt (Num (of_nat (length (toStr node)))) preferred
      then (Normal,
            file_message (''Use headings shorter than `'' @ numberToString preferred @ ''`'')
              (OfNode node) w)
      else (Normal, w))"

definition maximumHeadingLength ::
    "(node \<Rightarrow> string) \<Rightarrow> (js_number \<Rightarrow> string) \<Rightarrow> node \<Rightarrow> vfile \<Rightarrow> js_value \<Rightarrow>
       completion \<times> world" where
  "maximumHeadingLength toStr numberToString tree file option =
     (let preferred = maximumHeadingLength_preferred option
      in visit tree ''heading'' (maximumHeadingLength_visitor toStr numberToString preferred)
           \<lparr>w_tree = tree, w_file = file\<rparr>)"

section \<open>list-item-spacing\<close>

text \<open>
  \<open>var blanks = Boolean(preferred && typeof preferred === 'object' && preferred.checkBlanks)\<close>.
  \<open>a && b\<close> is \<open>a\<close> when \<open>a\<close> is falsy and \<open>b\<close> otherwise, and \<open>b\<close> is evaluated only
  in the second case.
\<close>

definition listItemSpacing_blanks :: "js_value \<Rightarrow> error + bool" where
  "listItemSpacing_blanks preferred =
     (if \<not> truthy preferred then Inr (truthy preferred)
      else if \<not> (typeof preferred = ''object'') then Inr (truthy (Boolean False))
      else (case get_property preferred ''checkBlanks'' of
              Inl e \<Rightarrow> Inl e
            | Inr v \<Rightarrow> Inr (truthy v)))"

text \<open>
  \<open>inferBlankLine\<close>. \<open>item.children.length\<close> throws when the item has no children
  property. The loop runs with \<open>index\<close> from \<open>1\<close> below \<open>length\<close>; \<open>child\<close> is
  \<open>undefined\<close> at first when there are no children.
\<close>

function inferBlankLine_loop :: "node list \<Rightarrow> nat \<Rightarrow> node option \<Rightarrow> bool" where
  "inferBlankLine_loop children index child =
     (let index = index + 1 in
      if index < length children then
        (let next = children ! index in
         if to_number (line (position_start (Some next))) -
            to_number (line (position_end child)) > 1
         then True
         else inferBlankLine_loop children index (Some next))
      else False)"
  by pat_completeness auto
termination
  by (relation "measure (\<lambda>(children, index, child). length children - index)") auto

declare inferBlankLine_loop.simps [simp del]

definition inferBlankLine :: "node \<Rightarrow> error + bool" where
  "inferBlankLine item =
     (case node_children item of
        None \<Rightarrow> Inl TypeError
      | Some children \<Rightarrow> Inr (inferBlankLine_loop children 0 (element_at children 0)))"

text \<open>\<open>inferMultiline\<close>. \<open>content[0]\<close> throws when the item has no children property.\<close>

definition inferMultiline :: "node \<Rightarrow> error + bool" where
  "inferMultiline item =
     (case node_children item of
        None \<Rightarrow> Inl TypeError
      | Some content \<Rightarrow>
          (let head = element_at content 0;
               tail = element_at content (int (length content) - 1)
           in Inr (to_number (line (position_end tail)) -
                   to_number (line (position_start head)) > 0)))"

text \<open>\<open>infer\<close> clears \<open>isTightList\<close>, the variable it shares with the visitor.\<close>

definition infer :: "bool \<Rightarrow> node \<Rightarrow> nat \<Rightarrow> bool \<Rightarrow> completion \<times> bool" where
  "infer blanks item index isTightList =
     (let fn = (if blanks then inferBlankLine else inferMultiline)
      in case fn item of
           Inl e \<Rightarrow> (Throw e, isTightList)
         | Inr b \<Rightarrow> (Normal, if b then False else isTightList))"

definition warn ::
    "node list \<Rightarrow> int option \<Rightarrow> bool \<Rightarrow> string \<Rightarrow> node \<Rightarrow> nat \<Rightarrow> world \<Rightarrow>
       completion \<times> world" where
  "warn items indent isTightList type item index w =
     (let next = element_at items (int index + 1);
          isTight = (to_number (column (position_end (Some item))) > to_number indent)
      in case next of
           None \<Rightarrow> (Normal, w)
         | Some next \<Rightarrow>
             (if isTight \<noteq> isTightList then
                (if type = ''loose'' then
                   (Normal,
                    file_message ''Missing new line after list item''
                      (OfRange (position_end (Some item)) (position_start (Some next))) w)
                 else
                   (Normal,
                    file_message ''Extraneous new line after list item''
                      (OfRange (position_end (Some item)) (position_start (Some next))) w))
              else (Normal, w)))"

text \<open>
  The visitor of the list rule. \<open>items.forEach\<close> throws when the list has no children
  property.
\<close>

definition listItemSpacing_visitor :: "bool \<Rightarrow> node \<Rightarrow> world \<Rightarrow> completion \<times> world" where
  "listItemSpacing_visitor blanks node w =
     (let items = node_children node;
          isTightList = True;
          indent = column (position_start (Some node))
      in if generated node then (Normal, w)
         else
           (case items of
              None \<Rightarrow> (Throw TypeError, w)
            | Some items \<Rightarrow>
                (case forEach (infer blanks) items isTightList of
                   (Throw e, isTightList) \<Rightarrow> (Throw e, w)
                 | (Normal, isTightList) \<Rightarrow>
                     (let type = (if isTightList then ''tight'' else ''loose'')
                      in forEach (warn items indent isTightList type) items w))))"

definition listItemSpacing :: "node \<Rightarrow> vfile \<Rightarrow> js_value \<Rightarrow> completion \<times> world" where
  "listItemSpacing ast file preferred =
     (case listItemSpacing_blanks preferred of
        Inl e \<Rightarrow> (Throw e, \<lparr>w_tree = ast, w_file = file\<rparr>)
      | Inr blanks \<Rightarrow>
          visit ast ''list'' (listItemSpacing_visitor blanks) \<lparr>w_tree = ast, w_file = file\<rparr>)"

section \<open>What the specification says\<close>

text \<open>
  The definitions of this section follow the words of the specification, not the code;
  the theorems below compare the two.
\<close>

text \<open>The only effect of a rule: messages appended to the file.\<close>

definition add_messages :: "message list \<Rightarrow> world \<Rightarrow> world" where
  "add_messages ms w = w\<lparr>w_file := (w_file w)\<lparr>messages := messages (w_file w) @ ms\<rparr>\<rparr>"

text \<open>
  A heading whose text is no longer than the threshold gives no message, a longer one
  gives one message, with the threshold in its text, at the heading.
\<close>

definition heading_messages ::
    "(node \<Rightarrow> string) \<Rightarrow> (js_number \<Rightarrow> string) \<Rightarrow> js_number \<Rightarrow> node \<Rightarrow> message list" where
  "heading_messages toStr numberToString threshold node =
     (if js_le (Num (of_nat (length (toStr node)))) threshold then []
      else [\<lparr>reason = ''Use headings shorter than `'' @ numberToString threshold @ ''`'',
             place = OfNode node\<rparr>])"

text \<open>The threshold as the specification resolves it: a finite number, otherwise 60.\<close>

definition finite_threshold :: "js_value \<Rightarrow> js_number" where
  "finite_threshold option = (case option of Number (Num q) \<Rightarrow> Num q | _ \<Rightarrow> Num 60)"

text \<open>
  The boundary between an item and the next one. It is observed tight when the item ends
  in a column greater than the one the list starts in. A loose list with a tight boundary
  misses a new line, a tight list with a loose boundary has an extraneous one; the
  message runs from the end of the item to the start of the next.
\<close>

definition boundary_messages :: "node \<Rightarrow> bool \<Rightarrow> node \<Rightarrow> node \<Rightarrow> message list" where
  "boundary_messages list classifiedTight item next =
     (let observedTight =
            (to_number (column (position_end (Some item))) >
             to_number (column (position_start (Some list))))
      in if \<not> classifiedTight \<and> observedTight then
           [\<lparr>reason = ''Missing new line after list item'',
             place = OfRange (position_end (Some item)) (position_start (Some next))\<rparr>]
         else if classifiedTight \<and> \<not> observedTight then
           [\<lparr>reason = ''Extraneous new line after list item'',
             place = OfRange (position_end (Some item)) (position_start (Some next))\<rparr>]
         else [])"

definition list_messages :: "node \<Rightarrow> bool \<Rightarrow> node list \<Rightarrow> message list" where
  "list_messages list classifiedTight items =
     concat (map (\<lambda>i. boundary_messages list classifiedTight (items ! i) (items ! Suc i))
               [0..<length items - 1])"

text \<open>
  An item is multiline when the end line of its last child exceeds the start line of its
  first child.
\<close>

definition multiline :: "node list \<Rightarrow> bool" where
  "multiline content =
     (content \<noteq> [] \<and>
      to_number (line (position_end (Some (last content)))) >
      to_number (line (position_start (Some (hd content)))))"

text \<open>
  An item has an internal blank line when two adjacent children are more than one line
  apart.
\<close>

definition internal_blank_line :: "node list \<Rightarrow> bool" where
  "internal_blank_line content =
     (\<exists>(child, next) \<in> set (zip content (tl content)).
        to_number (line (position_start (Some next))) -
        to_number (line (position_end (Some child))) > 1)"

text \<open>The predicate in force, and the list it makes loose.\<close>

definition forces_loose :: "bool \<Rightarrow> node \<Rightarrow> bool" where
  "forces_loose blanks item =
     ((if blanks then inferBlankLine item else inferMultiline item) = Inr True)"

definition classified_loose :: "bool \<Rightarrow> node list \<Rightarrow> bool" where
  "classified_loose blanks items = (\<exists>item \<in> set items. forces_loose blanks item)"

text \<open>An option that switches the blank-line mode on: an object with a truthy \<open>checkBlanks\<close>.\<close>

definition checkBlanks_set :: "js_value \<Rightarrow> bool" where
  "checkBlanks_set option =
     (case option of
        Object ps \<Rightarrow> (case map_of ps ''checkBlanks'' of None \<Rightarrow> False | Some v \<Rightarrow> truthy v)
      | _ \<Rightarrow> False)"

section \<open>The documents of the rules' own examples\<close>

text \<open>
  The trees below are the lists and the heading of the examples in the two rules'
  documentation, with the positions the documented output shows.
\<close>

definition span :: "int \<Rightarrow> int \<Rightarrow> int \<Rightarrow> int \<Rightarrow> position option" where
  "span l c l' c' =
     Some \<lparr>pos_start = Some \<lparr>line = Some l, column = Some c, offset = None\<rparr>,
           pos_end = Some \<lparr>line = Some l', column = Some c', offset = None\<rparr>\<rparr>"

definition block :: "string \<Rightarrow> position option \<Rightarrow> node" where
  "block ty p = Node ty None None p None"

definition listItem :: "position option \<Rightarrow> node list \<Rightarrow> node" where
  "listItem p content = Node ''listItem'' None None p (Some content)"

text \<open>
  \<open># Alpha bravo charlie delta echo foxtrot golf hotel\<close>, reported with setting 40 at
  \<open>1:1-1:52\<close>.
\<close>

definition long_heading :: node where
  "long_heading =
     Node ''heading'' None None (span 1 1 1 52)
       (Some [Node ''text'' (Some ''Alpha bravo charlie delta echo foxtrot golf hotel'') None
                (span 1 3 1 52) None])"


text \<open>
  The list of lines 3 to 6 of \<open>invalid.md\<close>: a wrapped item and two short ones with no
  blank lines between them, reported at \<open>4:9-5:1\<close> and \<open>5:11-6:1\<close>.
\<close>

definition wrapped_items :: "node list" where
  "wrapped_items =
     [listItem (span 3 1 4 9) [block ''paragraph'' (span 3 5 4 9)],
      listItem (span 5 1 5 11) [block ''paragraph'' (span 5 5 5 11)],
      listItem (span 6 1 6 11) [block ''paragraph'' (span 6 5 6 11)]]"

definition wrapped_list :: node where
  "wrapped_list = Node ''list'' None None (span 3 1 6 11) (Some wrapped_items)"

text \<open>
  The list of lines 10 to 14 of \<open>invalid.md\<close>: three short items with blank lines
  between them, reported at \<open>11:1-12:1\<close> and \<open>13:1-14:1\<close>.
\<close>

definition spaced_items :: "node list" where
  "spaced_items =
     [listItem (span 10 1 11 1) [block ''paragraph'' (span 10 5 10 11)],
      listItem (span 12 1 13 1) [block ''paragraph'' (span 12 5 12 11)],
      listItem (span 14 1 14 11) [block ''paragraph'' (span 14 5 14 11)]]"

definition spaced_list :: node where
  "spaced_list = Node ''list'' None None (span 10 1 14 11) (Some spaced_items)"

text \<open>
  The first two items of the tight list of \<open>valid.md\<close> with \<open>checkBlanks\<close>: each is a
  paragraph with a block on the next line.
\<close>

definition nested_items :: "node list" where
  "nested_items =
     [listItem (span 3 1 4 15) [block ''paragraph'' (span 3 5 3 11), block ''list'' (span 4 5 4 15)],
      listItem (span 5 1 6 17) [block ''paragraph'' (span 5 5 5 11), block ''blockquote'' (span 6 5 6 17)]]"

definition nested_list :: node where
  "nested_list = Node ''list'' None None (span 3 1 6 17) (Some nested_items)"

text \<open>A list of one item, an item without content, and a list without a position.\<close>

definition single_list :: node where
  "single_list =
     Node ''list'' None None (span 1 1 2 9) (Some [listItem (span 1 1 2 9) [block ''paragraph'' (span 1 5 2 9)]])"

definition empty_item :: node where
  "empty_item = listItem (span 1 1 1 2) []"




definition empty_file :: vfile where
  "empty_file = \<lparr>messages = []\<rparr>"

section \<open>Appending messages, loops\<close>

lemma add_messages_Nil: "add_messages [] w = w"
  by (simp add: add_messages_def)

lemma add_messages_append: "add_messages b (add_messages a w) = add_messages (a @ b) w"
  by (simp add: add_messages_def)

lemma file_message_add: "file_message r p w = add_messages [\<lparr>reason = r, place = p\<rparr>] w"
  by (simp add: file_message_def add_messages_def)


lemma forEach_from_reports:
  assumes "\<And>x i s. x \<in> set xs \<Longrightarrow> f x i s = (Normal, add_messages (g x i) s)"
  shows "forEach_from k f xs s =
           (Normal, add_messages (concat (map (\<lambda>j. g (xs ! j) (k + j)) [0..<length xs])) s)"
  using assms
proof (induction xs arbitrary: k s)
  case Nil
  show ?case by (simp add: add_messages_Nil)
next
  case (Cons x xs)
  have upt: "[0..<length (x # xs)] = 0 # map Suc [0..<length xs]"
    by (simp add: upt_conv_Cons map_Suc_upt del: upt_Suc)
  have head: "f x k s = (Normal, add_messages (g x k) s)"
    by (rule Cons.prems) simp
  have rest: "\<And>y i s. y \<in> set xs \<Longrightarrow> f y i s = (Normal, add_messages (g y i) s)"
    by (rule Cons.prems) simp
  have "forEach_from k f (x # xs) s = forEach_from (Suc k) f xs (add_messages (g x k) s)"
    by (simp add: head)
  also have "\<dots> = (Normal, add_messages (concat (map (\<lambda>j. g (xs ! j) (Suc k + j)) [0..<length xs]))
                          (add_messages (g x k) s))"
    using rest by (rule Cons.IH)
  also have "\<dots> = (Normal, add_messages (concat (map (\<lambda>j. g ((x # xs) ! j) (k + j))
                          [0..<length (x # xs)])) s)"
    unfolding upt by (simp add: add_messages_append o_def)
  finally show ?case .
qed

lemma forEach_from_extends:
  assumes "\<And>x i s. \<exists>ms. snd (f x i s) = add_messages ms s"
  shows "\<exists>ms. snd (forEach_from k f xs s) = add_messages ms s"
proof (induction xs arbitrary: k s)
  case Nil
  show ?case by (simp add: exI [of _ "[]"] add_messages_Nil)
next
  case (Cons x xs)
  obtain c s' where fx: "f x k s = (c, s')" by (cases "f x k s")
  obtain ms where ms: "s' = add_messages ms s" using assms [of x k s] fx by auto
  show ?case
  proof (cases c)
    case Normal
    obtain ms' where "snd (forEach_from (Suc k) f xs s') = add_messages ms' s'"
      using Cons.IH by blast
    then show ?thesis using fx Normal ms by (auto simp: add_messages_append)
  next
    case (Throw e)
    then show ?thesis using fx ms by auto
  qed
qed

lemma forEach_from_completion:
  assumes "\<And>x i s s'. fst (f x i s) = fst (f' x i s')"
  shows "fst (forEach_from k f xs s) = fst (forEach_from k f' xs s')"
proof (induction xs arbitrary: k s s')
  case Nil
  show ?case by simp
next
  case (Cons x xs)
  obtain c s1 where fx: "f x k s = (c, s1)" by (cases "f x k s")
  obtain c' s1' where fx': "f' x k s' = (c', s1')" by (cases "f' x k s'")
  have "c = c'" using assms [of x k s s'] fx fx' by simp
  then show ?case using fx fx' Cons.IH by (cases c) auto
qed

section \<open>The two phases of the list visitor\<close>

lemma element_at_Suc:
  "element_at xs (int i + 1) = (if Suc i < length xs then Some (xs ! Suc i) else None)"
  by (auto simp: element_at_def nat_add_distrib)

lemma warn_reports:
  "warn items (column (position_start (Some list))) t (if t then ''tight'' else ''loose'') item index w =
     (Normal, add_messages
        (if Suc index < length items then boundary_messages list t item (items ! Suc index) else []) w)"
  by (simp add: warn_def element_at_Suc boundary_messages_def file_message_add add_messages_Nil Let_def)

lemma concat_upt_last_Nil:
  assumes "\<And>j. Suc j = n \<Longrightarrow> h j = []"
  shows "concat (map h [0..<n]) = concat (map h [0..<n - 1])"
proof (cases n)
  case 0
  then show ?thesis by simp
next
  case (Suc m)
  then show ?thesis using assms [of m] by simp
qed

lemma forEach_warn:
  "forEach (warn items (column (position_start (Some list))) t (if t then ''tight'' else ''loose'')) items w =
     (Normal, add_messages (list_messages list t items) w)"
proof -
  let ?g = "\<lambda>item index. if Suc index < length items
              then boundary_messages list t item (items ! Suc index) else []"
  have a: "forEach (warn items (column (position_start (Some list))) t (if t then ''tight'' else ''loose'')) items w =
        (Normal, add_messages (concat (map (\<lambda>j. ?g (items ! j) (0 + j)) [0..<length items])) w)"
    unfolding forEach_def by (rule forEach_from_reports) (rule warn_reports)
  have b: "concat (map (\<lambda>j. ?g (items ! j) (0 + j)) [0..<length items]) =
                 concat (map (\<lambda>j. ?g (items ! j) (0 + j)) [0..<length items - 1])"
    by (rule concat_upt_last_Nil) simp
  have c: "map (\<lambda>j. ?g (items ! j) (0 + j)) [0..<length items - 1] =
                 map (\<lambda>i. boundary_messages list t (items ! i) (items ! Suc i)) [0..<length items - 1]"
    by (rule map_cong) auto
  show ?thesis by (simp only: a b c list_messages_def)
qed

lemma infer_result:
  "infer blanks item index t =
     (case (if blanks then inferBlankLine item else inferMultiline item) of
        Inl e \<Rightarrow> (Throw e, t)
      | Inr b \<Rightarrow> (Normal, t \<and> \<not> b))"
  by (simp add: infer_def Let_def split: sum.splits)

lemma infer_children_None:
  "node_children item = None \<Longrightarrow> infer blanks item index t = (Throw TypeError, t)"
  by (simp add: infer_def inferBlankLine_def inferMultiline_def)

lemma infer_children_Some:
  "node_children item = Some cs \<Longrightarrow> infer blanks item index t = (Normal, t \<and> \<not> forces_loose blanks item)"
  by (auto simp: infer_def inferBlankLine_def inferMultiline_def forces_loose_def Let_def)

lemma forEach_from_infer:
  assumes "\<forall>item \<in> set items. node_children item \<noteq> None"
  shows "forEach_from k (infer blanks) items t = (Normal, t \<and> \<not> classified_loose blanks items)"
  using assms
proof (induction items arbitrary: k t)
  case Nil
  show ?case by (simp add: classified_loose_def)
next
  case (Cons item items)
  then obtain cs where "node_children item = Some cs" by auto
  then have "infer blanks item k t = (Normal, t \<and> \<not> forces_loose blanks item)"
    by (rule infer_children_Some)
  moreover have "forEach_from (Suc k) (infer blanks) items (t \<and> \<not> forces_loose blanks item) =
                 (Normal, (t \<and> \<not> forces_loose blanks item) \<and> \<not> classified_loose blanks items)"
    using Cons by simp
  ultimately show ?case by (auto simp: classified_loose_def)
qed

lemma forEach_from_infer_throws:
  assumes "\<exists>item \<in> set items. node_children item = None"
  shows "fst (forEach_from k (infer blanks) items t) = Throw TypeError"
  using assms
proof (induction items arbitrary: k t)
  case Nil
  then show ?case by simp
next
  case (Cons item items)
  show ?case
  proof (cases "node_children item")
    case None
    then show ?thesis by (simp add: infer_children_None)
  next
    case (Some cs)
    then show ?thesis using Cons by (simp add: infer_children_Some)
  qed
qed

lemma listItemSpacing_visitor_reports:
  assumes "\<not> generated node" and "node_children node = Some items"
    and "forEach (infer blanks) items True = (Normal, t)"
  shows "listItemSpacing_visitor blanks node w = (Normal, add_messages (list_messages node t items) w)"
  using assms by (simp add: listItemSpacing_visitor_def forEach_warn)


section \<open>The two inference predicates\<close>

lemma inferBlankLine_loop_adjacent:
  "index < length cs \<Longrightarrow>
   inferBlankLine_loop cs index (Some (cs ! index)) =
     (\<exists>j. index \<le> j \<and> Suc j < length cs \<and>
          to_number (line (position_start (Some (cs ! Suc j)))) -
          to_number (line (position_end (Some (cs ! j)))) > 1)"
proof (induction "length cs - index" arbitrary: index)
  case 0
  then show ?case by simp
next
  case (Suc d)
  show ?case
  proof (cases "Suc index < length cs")
    case False
    then have "inferBlankLine_loop cs index (Some (cs ! index)) = False"
      by (subst inferBlankLine_loop.simps) simp
    moreover have "\<not> (\<exists>j. index \<le> j \<and> Suc j < length cs \<and>
          to_number (line (position_start (Some (cs ! Suc j)))) -
          to_number (line (position_end (Some (cs ! j)))) > 1)"
      using False by auto
    ultimately show ?thesis by simp
  next
    case True
    have d: "d = length cs - Suc index" using Suc.hyps(2) by simp
    have IH: "inferBlankLine_loop cs (Suc index) (Some (cs ! Suc index)) =
      (\<exists>j. Suc index \<le> j \<and> Suc j < length cs \<and>
          to_number (line (position_start (Some (cs ! Suc j)))) -
          to_number (line (position_end (Some (cs ! j)))) > 1)"
      using Suc.hyps(1) [OF d True] .
    have unfold: "inferBlankLine_loop cs index (Some (cs ! index)) =
      (to_number (line (position_start (Some (cs ! Suc index)))) -
          to_number (line (position_end (Some (cs ! index)))) > 1 \<or>
       inferBlankLine_loop cs (Suc index) (Some (cs ! Suc index)))"
      using True by (subst inferBlankLine_loop.simps) (simp add: Let_def)
    show ?thesis unfolding unfold IH
    proof
      assume "to_number (line (position_start (Some (cs ! Suc index)))) -
          to_number (line (position_end (Some (cs ! index)))) > 1 \<or>
        (\<exists>j. Suc index \<le> j \<and> Suc j < length cs \<and>
          to_number (line (position_start (Some (cs ! Suc j)))) -
          to_number (line (position_end (Some (cs ! j)))) > 1)"
      then show "\<exists>j. index \<le> j \<and> Suc j < length cs \<and>
          to_number (line (position_start (Some (cs ! Suc j)))) -
          to_number (line (position_end (Some (cs ! j)))) > 1"
        using True by (auto intro: exI [of _ index] Suc_leD)
    next
      assume "\<exists>j. index \<le> j \<and> Suc j < length cs \<and>
          to_number (line (position_start (Some (cs ! Suc j)))) -
          to_number (line (position_end (Some (cs ! j)))) > 1"
      then obtain j where j: "index \<le> j" "Suc j < length cs"
          "to_number (line (position_start (Some (cs ! Suc j)))) -
          to_number (line (position_end (Some (cs ! j)))) > 1" by blast
      show "to_number (line (position_start (Some (cs ! Suc index)))) -
          to_number (line (position_end (Some (cs ! index)))) > 1 \<or>
        (\<exists>j. Suc index \<le> j \<and> Suc j < length cs \<and>
          to_number (line (position_start (Some (cs ! Suc j)))) -
          to_number (line (position_end (Some (cs ! j)))) > 1)"
      proof (cases "j = index")
        case True
        then show ?thesis using j by simp
      next
        case False
        then have "Suc index \<le> j" using j(1) by simp
        then show ?thesis using j by blast
      qed
    qed
  qed
qed

lemma internal_blank_line_nth:
  "internal_blank_line cs =
     (\<exists>j. Suc j < length cs \<and>
          to_number (line (position_start (Some (cs ! Suc j)))) -
          to_number (line (position_end (Some (cs ! j)))) > 1)"
proof -
  have "set (zip cs (tl cs)) = {(cs ! j, cs ! Suc j) | j. Suc j < length cs}"
    by (auto simp: set_zip nth_tl)
  then show ?thesis unfolding internal_blank_line_def by auto
qed

lemma inferBlankLine_children:
  "node_children item = Some cs \<Longrightarrow> inferBlankLine item = Inr (internal_blank_line cs)"
proof (cases cs)
  case Nil
  assume "node_children item = Some cs"
  moreover have "inferBlankLine_loop [] 0 (element_at [] 0) = False"
    by (subst inferBlankLine_loop.simps) simp
  ultimately show ?thesis using Nil
    by (simp add: inferBlankLine_def internal_blank_line_def)
next
  case (Cons c cs')
  assume c: "node_children item = Some cs"
  have "0 < length cs" using Cons by simp
  then have "inferBlankLine_loop cs 0 (Some (cs ! 0)) = internal_blank_line cs"
    by (simp add: inferBlankLine_loop_adjacent internal_blank_line_nth)
  moreover have "element_at cs 0 = Some (cs ! 0)" using Cons by (simp add: element_at_def)
  ultimately show ?thesis using c by (simp add: inferBlankLine_def)
qed

lemma inferMultiline_children:
  "node_children item = Some cs \<Longrightarrow> inferMultiline item = Inr (multiline cs)"
proof (cases cs)
  case Nil
  assume "node_children item = Some cs"
  then show ?thesis using Nil
    by (simp add: inferMultiline_def multiline_def element_at_def position_start_def
        position_end_def point_of_def)
next
  case (Cons c cs')
  assume c: "node_children item = Some cs"
  have "element_at cs 0 = Some (hd cs)" using Cons by (simp add: element_at_def)
  moreover have "element_at cs (int (length cs) - 1) = Some (last cs)"
    using Cons by (simp add: element_at_def last_conv_nth)
  ultimately show ?thesis using c Cons by (simp add: inferMultiline_def multiline_def)
qed

section \<open>The traversal and the two visitors\<close>

lemma visit_reports:
  assumes "\<And>n s. n \<in> set (preorder t) \<Longrightarrow> node_type n = ty \<Longrightarrow> visitor n s = (Normal, add_messages (g n) s)"
  shows "visit t ty visitor s =
           (Normal, add_messages (concat (map g (filter (\<lambda>n. node_type n = ty) (preorder t)))) s)"
proof -
  let ?xs = "filter (\<lambda>n. node_type n = ty) (preorder t)"
  have "forEach_from 0 (\<lambda>n index. visitor n) ?xs s =
          (Normal, add_messages (concat (map (\<lambda>j. g (?xs ! j)) [0..<length ?xs])) s)"
    by (rule forEach_from_reports) (simp add: assms)
  moreover have "map (\<lambda>j. g (?xs ! j)) [0..<length ?xs] = map g (map ((!) ?xs) [0..<length ?xs])"
    by simp
  ultimately show ?thesis by (simp only: visit_def forEach_def map_nth)
qed

lemma visit_extends:
  assumes "\<And>n s. \<exists>ms. snd (visitor n s) = add_messages ms s"
  shows "\<exists>ms. snd (visit t ty visitor s) = add_messages ms s"
  unfolding visit_def forEach_def by (rule forEach_from_extends) (rule assms)

lemma visit_completion:
  assumes "\<And>n s s'. fst (visitor n s) = fst (visitor' n s')"
  shows "fst (visit t ty visitor s) = fst (visit t ty visitor' s')"
  unfolding visit_def forEach_def by (rule forEach_from_completion) (rule assms)

lemma js_le_gt: "\<not> isNaN p \<Longrightarrow> js_le (Num x) p = (\<not> js_gt (Num x) p)"
  by (cases p) (simp_all add: js_le_def js_gt_def)

lemma preferred_not_NaN: "\<not> isNaN (maximumHeadingLength_preferred option)"
  by (cases option) (simp_all add: maximumHeadingLength_preferred_def)

lemma maximumHeadingLength_visitor_reports:
  "maximumHeadingLength_visitor toStr numberToString preferred node w =
     (Normal, add_messages
        (if \<not> generated node \<and> js_gt (Num (of_nat (length (toStr node)))) preferred
         then [\<lparr>reason = ''Use headings shorter than `'' @ numberToString preferred @ ''`'',
                place = OfNode node\<rparr>]
         else []) w)"
  by (simp add: maximumHeadingLength_visitor_def file_message_add add_messages_Nil)

lemma concat_map_filter_guard:
  "concat (map (\<lambda>n. if Q n then h n else []) (filter P xs)) =
   concat (map h (filter (\<lambda>n. P n \<and> Q n) xs))"
  by (induction xs) simp_all

lemma maximumHeadingLength_reports:
  "maximumHeadingLength toStr numberToString tree file option =
     (Normal, add_messages
        (concat (map (heading_messages toStr numberToString (maximumHeadingLength_preferred option))
           (filter (\<lambda>n. node_type n = ''heading'' \<and> \<not> generated n) (preorder tree))))
        \<lparr>w_tree = tree, w_file = file\<rparr>)"
proof -
  let ?p = "maximumHeadingLength_preferred option"
  let ?g = "\<lambda>n. if \<not> generated n then heading_messages toStr numberToString ?p n else []"
  have "\<And>n s. maximumHeadingLength_visitor toStr numberToString ?p n s = (Normal, add_messages (?g n) s)"
    by (simp add: maximumHeadingLength_visitor_reports heading_messages_def
        js_le_gt [OF preferred_not_NaN])
  then have "visit tree ''heading'' (maximumHeadingLength_visitor toStr numberToString ?p)
          \<lparr>w_tree = tree, w_file = file\<rparr> =
        (Normal, add_messages (concat (map ?g (filter (\<lambda>n. node_type n = ''heading'') (preorder tree))))
          \<lparr>w_tree = tree, w_file = file\<rparr>)"
    by (intro visit_reports)
  then show ?thesis
    by (simp only: maximumHeadingLength_def Let_def concat_map_filter_guard)
qed

lemma listItemSpacing_blanks_result:
  "listItemSpacing_blanks option = Inr (checkBlanks_set option)"
  by (cases option) (simp_all add: listItemSpacing_blanks_def checkBlanks_set_def split: option.splits)

lemma listItemSpacing_visitor_extends:
  "\<exists>ms. snd (listItemSpacing_visitor blanks node w) = add_messages ms w"
proof -
  have keep: "\<exists>ms. w = add_messages ms w" by (rule exI [of _ "[]"]) (simp add: add_messages_Nil)
  show ?thesis
  proof (cases "generated node")
    case True
    then show ?thesis using keep by (simp add: listItemSpacing_visitor_def)
  next
    case False
    show ?thesis
    proof (cases "node_children node")
      case None
      then show ?thesis using False keep by (simp add: listItemSpacing_visitor_def)
    next
      case (Some items)
      obtain c t where r: "forEach (infer blanks) items True = (c, t)"
        by (cases "forEach (infer blanks) items True")
      show ?thesis
      proof (cases c)
        case Normal
        then show ?thesis using listItemSpacing_visitor_reports [OF False Some] r by auto
      next
        case (Throw e)
        then show ?thesis using False Some r keep by (simp add: listItemSpacing_visitor_def)
      qed
    qed
  qed
qed

lemma listItemSpacing_visitor_completion:
  "fst (listItemSpacing_visitor blanks node w) =
     (if generated node then Normal
      else case node_children node of
             None \<Rightarrow> Throw TypeError
           | Some items \<Rightarrow>
               (if \<exists>item \<in> set items. node_children item = None then Throw TypeError else Normal))"
proof (cases "generated node")
  case True
  then show ?thesis by (simp add: listItemSpacing_visitor_def)
next
  case False
  show ?thesis
  proof (cases "node_children node")
    case None
    then show ?thesis using False by (simp add: listItemSpacing_visitor_def)
  next
    case (Some items)
    show ?thesis
    proof (cases "\<exists>item \<in> set items. node_children item = None")
      case True
      then have "fst (forEach (infer blanks) items True) = Throw TypeError"
        unfolding forEach_def by (rule forEach_from_infer_throws)
      then show ?thesis using False Some True
        by (auto simp: listItemSpacing_visitor_def split: prod.splits completion.splits)
    next
      case no: False
      then have "forEach (infer blanks) items True = (Normal, True \<and> \<not> classified_loose blanks items)"
        unfolding forEach_def by (intro forEach_from_infer) simp
      then show ?thesis using listItemSpacing_visitor_reports [OF False Some] no False Some by simp
    qed
  qed
qed



lemma listItemSpacing_visit:
  "listItemSpacing ast file option =
     visit ast ''list'' (listItemSpacing_visitor (checkBlanks_set option)) \<lparr>w_tree = ast, w_file = file\<rparr>"
  by (simp add: listItemSpacing_def listItemSpacing_blanks_result)




section \<open>The claims\<close>

text \<open>
  C1. The verification phase of a list with a position, once the inference phase has
  classified it: each item but the last is compared with its list. The boundary is
  observed tight exactly when the item ends in a column greater than the one the list
  starts in. A message is emitted exactly when that disagrees with the classification:
  ``Missing new line after list item'' in a loose list, ``Extraneous new line after list
  item'' in a tight one, from the end of the item to the start of the next. Nothing is
  emitted after the last item.
\<close>

theorem verification_phase_reports:
  assumes "\<not> generated node" and "node_children node = Some items"
    and "forEach (infer blanks) items True = (Normal, isTightList)"
  shows "listItemSpacing_visitor blanks node w =
           (Normal, add_messages
              (concat (map (\<lambda>i. boundary_messages node isTightList (items ! i) (items ! Suc i))
                         [0..<length items - 1])) w)"
  using listItemSpacing_visitor_reports [OF assms] by (simp only: list_messages_def)

theorem verification_phase_reports_witness:
  "\<not> generated wrapped_list \<and> \<not> generated spaced_list \<and>
   forEach (infer False) wrapped_items True = (Normal, False) \<and>
   forEach (infer False) spaced_items True = (Normal, True) \<and>
   listItemSpacing_visitor False wrapped_list \<lparr>w_tree = wrapped_list, w_file = empty_file\<rparr> =
     (Normal, \<lparr>w_tree = wrapped_list, w_file = \<lparr>messages =
        [\<lparr>reason = ''Missing new line after list item'',
          place = OfRange \<lparr>line = Some 4, column = Some 9, offset = None\<rparr>
                          \<lparr>line = Some 5, column = Some 1, offset = None\<rparr>\<rparr>,
         \<lparr>reason = ''Missing new line after list item'',
          place = OfRange \<lparr>line = Some 5, column = Some 11, offset = None\<rparr>
                          \<lparr>line = Some 6, column = Some 1, offset = None\<rparr>\<rparr>]\<rparr>\<rparr>) \<and>
   listItemSpacing_visitor False spaced_list \<lparr>w_tree = spaced_list, w_file = empty_file\<rparr> =
     (Normal, \<lparr>w_tree = spaced_list, w_file = \<lparr>messages =
        [\<lparr>reason = ''Extraneous new line after list item'',
          place = OfRange \<lparr>line = Some 11, column = Some 1, offset = None\<rparr>
                          \<lparr>line = Some 12, column = Some 1, offset = None\<rparr>\<rparr>,
         \<lparr>reason = ''Extraneous new line after list item'',
          place = OfRange \<lparr>line = Some 13, column = Some 1, offset = None\<rparr>
                          \<lparr>line = Some 14, column = Some 1, offset = None\<rparr>\<rparr>]\<rparr>\<rparr>)"
proof -
  have g1: "\<not> generated wrapped_list" by code_simp
  have g2: "\<not> generated spaced_list" by code_simp
  have c1: "node_children wrapped_list = Some wrapped_items" by (simp add: wrapped_list_def)
  have c2: "node_children spaced_list = Some spaced_items" by (simp add: spaced_list_def)
  have i1: "forEach (infer False) wrapped_items True = (Normal, False)" by code_simp
  have i2: "forEach (infer False) spaced_items True = (Normal, True)" by code_simp
  have m1: "add_messages
              (concat (map (\<lambda>i. boundary_messages wrapped_list False (wrapped_items ! i) (wrapped_items ! Suc i))
                         [0..<length wrapped_items - 1])) \<lparr>w_tree = wrapped_list, w_file = empty_file\<rparr> =
        \<lparr>w_tree = wrapped_list, w_file = \<lparr>messages =
        [\<lparr>reason = ''Missing new line after list item'',
          place = OfRange \<lparr>line = Some 4, column = Some 9, offset = None\<rparr>
                          \<lparr>line = Some 5, column = Some 1, offset = None\<rparr>\<rparr>,
         \<lparr>reason = ''Missing new line after list item'',
          place = OfRange \<lparr>line = Some 5, column = Some 11, offset = None\<rparr>
                          \<lparr>line = Some 6, column = Some 1, offset = None\<rparr>\<rparr>]\<rparr>\<rparr>"
    by code_simp
  have m2: "add_messages
              (concat (map (\<lambda>i. boundary_messages spaced_list True (spaced_items ! i) (spaced_items ! Suc i))
                         [0..<length spaced_items - 1])) \<lparr>w_tree = spaced_list, w_file = empty_file\<rparr> =
        \<lparr>w_tree = spaced_list, w_file = \<lparr>messages =
        [\<lparr>reason = ''Extraneous new line after list item'',
          place = OfRange \<lparr>line = Some 11, column = Some 1, offset = None\<rparr>
                          \<lparr>line = Some 12, column = Some 1, offset = None\<rparr>\<rparr>,
         \<lparr>reason = ''Extraneous new line after list item'',
          place = OfRange \<lparr>line = Some 13, column = Some 1, offset = None\<rparr>
                          \<lparr>line = Some 14, column = Some 1, offset = None\<rparr>\<rparr>]\<rparr>\<rparr>"
    by code_simp
  show ?thesis
    using g1 g2 i1 i2
      verification_phase_reports [OF g1 c1 i1, of "\<lparr>w_tree = wrapped_list, w_file = empty_file\<rparr>"]
      verification_phase_reports [OF g2 c2 i2, of "\<lparr>w_tree = spaced_list, w_file = empty_file\<rparr>"]
    unfolding m1 m2 by (intro conjI)
qed

text \<open>
  C2. The inference phase of a list whose items all have content: the list is loose
  exactly when some item satisfies the predicate in force. In the default mode an item
  satisfies it exactly when the end line of its last child exceeds the start line of its
  first child. The one classification is used at every boundary.
\<close>

theorem inference_phase_classifies:
  assumes "\<forall>item \<in> set items. node_children item \<noteq> None"
  shows "forEach (infer blanks) items True = (Normal, \<not> classified_loose blanks items) \<and>
         (\<forall>item \<in> set items. \<forall>content. node_children item = Some content \<longrightarrow>
            forces_loose False item = multiline content) \<and>
         (\<not> generated node \<and> node_children node = Some items \<longrightarrow>
            listItemSpacing_visitor blanks node w =
              (Normal, add_messages (list_messages node (\<not> classified_loose blanks items) items) w))"
proof -
  have a: "forEach (infer blanks) items True = (Normal, \<not> classified_loose blanks items)"
    using forEach_from_infer [OF assms, of 0 blanks True] by (simp add: forEach_def)
  have b: "\<forall>item \<in> set items. \<forall>content. node_children item = Some content \<longrightarrow>
            forces_loose False item = multiline content"
    by (simp add: forces_loose_def inferMultiline_children)
  have c: "\<not> generated node \<and> node_children node = Some items \<longrightarrow>
            listItemSpacing_visitor blanks node w =
              (Normal, add_messages (list_messages node (\<not> classified_loose blanks items) items) w)"
    using a by (auto intro: listItemSpacing_visitor_reports)
  from a b c show ?thesis by (intro conjI)
qed

theorem inference_phase_classifies_witness:
  "list_all (\<lambda>item. node_children item \<noteq> None) wrapped_items \<and>
   classified_loose False wrapped_items \<and>
   forEach (infer False) wrapped_items True = (Normal, False) \<and>
   forces_loose False (wrapped_items ! 0) \<and>
   multiline [block ''paragraph'' (span 3 5 4 9)] \<and>
   \<not> forces_loose False (wrapped_items ! 1) \<and>
   \<not> multiline [block ''paragraph'' (span 5 5 5 11)] \<and>
   listItemSpacing_visitor False wrapped_list \<lparr>w_tree = wrapped_list, w_file = empty_file\<rparr> =
     (Normal, add_messages (list_messages wrapped_list False wrapped_items)
        \<lparr>w_tree = wrapped_list, w_file = empty_file\<rparr>)"
proof -
  have h: "\<forall>item \<in> set wrapped_items. node_children item \<noteq> None" by code_simp
  have l: "classified_loose False wrapped_items" by code_simp
  have g: "\<not> generated wrapped_list" by code_simp
  have c: "node_children wrapped_list = Some wrapped_items" by (simp add: wrapped_list_def)
  have m0: "multiline [block ''paragraph'' (span 3 5 4 9)]" by code_simp
  have m1: "\<not> multiline [block ''paragraph'' (span 5 5 5 11)]" by code_simp
  have i0: "wrapped_items ! 0 \<in> set wrapped_items" by (simp add: wrapped_items_def)
  have i1: "wrapped_items ! 1 \<in> set wrapped_items" by (simp add: wrapped_items_def)
  have c0: "node_children (wrapped_items ! 0) = Some [block ''paragraph'' (span 3 5 4 9)]"
    by (simp add: wrapped_items_def listItem_def)
  have c1: "node_children (wrapped_items ! 1) = Some [block ''paragraph'' (span 5 5 5 11)]"
    by (simp add: wrapped_items_def listItem_def)
  note t = inference_phase_classifies [OF h, of False wrapped_list
      "\<lparr>w_tree = wrapped_list, w_file = empty_file\<rparr>"]
  from t have a: "forEach (infer False) wrapped_items True = (Normal, False)" using l by simp
  from t have f0: "forces_loose False (wrapped_items ! 0)" using i0 c0 m0 by blast
  from t have f1: "\<not> forces_loose False (wrapped_items ! 1)" using i1 c1 m1 by blast
  from t have v: "listItemSpacing_visitor False wrapped_list \<lparr>w_tree = wrapped_list, w_file = empty_file\<rparr> =
     (Normal, add_messages (list_messages wrapped_list False wrapped_items)
        \<lparr>w_tree = wrapped_list, w_file = empty_file\<rparr>)" using g c l by simp
  from h have h': "list_all (\<lambda>item. node_children item \<noteq> None) wrapped_items"
    by (simp add: list_all_iff)
  from h' l a f0 m0 f1 m1 v show ?thesis by (intro conjI)
qed

text \<open>
  C3. The heading rule emits, for each heading with a position in document order, no
  message when the length of its text is at most the resolved threshold and one message
  when it is greater; the message reads ``Use headings shorter than'' followed by the
  threshold in backquotes and is anchored at the heading. For a resolved threshold the
  two cases exclude each other and leave no third.
\<close>

theorem heading_rule_reports:
  "maximumHeadingLength toStr numberToString tree file option =
     (Normal, add_messages
        (concat (map (heading_messages toStr numberToString (maximumHeadingLength_preferred option))
           (filter (\<lambda>n. node_type n = ''heading'' \<and> \<not> generated n) (preorder tree))))
        \<lparr>w_tree = tree, w_file = file\<rparr>) \<and>
   (\<not> generated node \<longrightarrow>
      maximumHeadingLength_visitor toStr numberToString (maximumHeadingLength_preferred option) node w =
        (Normal, add_messages
           (heading_messages toStr numberToString (maximumHeadingLength_preferred option) node) w)) \<and>
   js_le (Num (of_nat (length (toStr node)))) (maximumHeadingLength_preferred option) =
     (\<not> js_gt (Num (of_nat (length (toStr node)))) (maximumHeadingLength_preferred option))"
  by (simp add: maximumHeadingLength_reports maximumHeadingLength_visitor_reports
      heading_messages_def js_le_gt [OF preferred_not_NaN])

theorem heading_rule_reports_witness:
  "\<not> generated long_heading \<and>
   maximumHeadingLength toString integerToString long_heading empty_file (Number (Num 40)) =
     (Normal, \<lparr>w_tree = long_heading, w_file = \<lparr>messages =
        [\<lparr>reason = ''Use headings shorter than `40`'', place = OfNode long_heading\<rparr>]\<rparr>\<rparr>) \<and>
   maximumHeadingLength toString integerToString long_heading empty_file (Number (Num 49)) =
     (Normal, \<lparr>w_tree = long_heading, w_file = \<lparr>messages = []\<rparr>\<rparr>) \<and>
   maximumHeadingLength_visitor toString integerToString (maximumHeadingLength_preferred (Number (Num 40)))
       long_heading \<lparr>w_tree = long_heading, w_file = empty_file\<rparr> =
     (Normal, \<lparr>w_tree = long_heading, w_file = \<lparr>messages =
        [\<lparr>reason = ''Use headings shorter than `40`'', place = OfNode long_heading\<rparr>]\<rparr>\<rparr>)"
proof -
  have g: "\<not> generated long_heading" by code_simp
  have hs: "filter (\<lambda>n. node_type n = ''heading'' \<and> \<not> generated n) (preorder long_heading) = [long_heading]"
    by code_simp
  have p40: "maximumHeadingLength_preferred (Number (Num 40)) = Num 40" by code_simp
  have p49: "maximumHeadingLength_preferred (Number (Num 49)) = Num 49" by code_simp
  have m40: "heading_messages toString integerToString (Num 40) long_heading =
        [\<lparr>reason = ''Use headings shorter than `40`'', place = OfNode long_heading\<rparr>]"
    by code_simp
  have m49: "heading_messages toString integerToString (Num 49) long_heading = []"
    by code_simp
  note t40 = heading_rule_reports [of toString integerToString long_heading empty_file "Number (Num 40)"
      long_heading "\<lparr>w_tree = long_heading, w_file = empty_file\<rparr>"]
  note t49 = heading_rule_reports [of toString integerToString long_heading empty_file "Number (Num 49)"
      long_heading "\<lparr>w_tree = long_heading, w_file = empty_file\<rparr>"]
  from t40 have a: "maximumHeadingLength toString integerToString long_heading empty_file (Number (Num 40)) =
     (Normal, \<lparr>w_tree = long_heading, w_file = \<lparr>messages =
        [\<lparr>reason = ''Use headings shorter than `40`'', place = OfNode long_heading\<rparr>]\<rparr>\<rparr>)"
    by (simp add: hs p40 m40 add_messages_def empty_file_def)
  from t49 have b: "maximumHeadingLength toString integerToString long_heading empty_file (Number (Num 49)) =
     (Normal, \<lparr>w_tree = long_heading, w_file = \<lparr>messages = []\<rparr>\<rparr>)"
    by (simp add: hs p49 m49 add_messages_def empty_file_def)
  from t40 g have c: "maximumHeadingLength_visitor toString integerToString (maximumHeadingLength_preferred (Number (Num 40)))
       long_heading \<lparr>w_tree = long_heading, w_file = empty_file\<rparr> =
     (Normal, \<lparr>w_tree = long_heading, w_file = \<lparr>messages =
        [\<lparr>reason = ''Use headings shorter than `40`'', place = OfNode long_heading\<rparr>]\<rparr>\<rparr>)"
    by (simp add: p40 m40 add_messages_def empty_file_def)
  from g a b c show ?thesis by (intro conjI)
qed

text \<open>
  C4 as stated: the resolved threshold is the option when the option is a finite number
  and 60 otherwise, so 60 for \<open>Infinity\<close>. The rule keeps \<open>Infinity\<close>.
\<close>

theorem threshold_infinity_counterexample:
  "maximumHeadingLength_preferred (Number PosInfinity) = PosInfinity \<and>
   finite_threshold (Number PosInfinity) = Num 60 \<and>
   maximumHeadingLength_preferred (Number PosInfinity) \<noteq> finite_threshold (Number PosInfinity)"
  by (simp add: maximumHeadingLength_preferred_def finite_threshold_def)

text \<open>
  C4, amended. The resolved threshold is the option when the option is a number other than
  \<open>NaN\<close> (the infinities included), and 60 otherwise: when the option is not a number
  or is \<open>NaN\<close>.
\<close>

theorem threshold_resolution:
  "(typeof option = ''number'' \<and> option \<noteq> Number NaN \<longrightarrow>
      Number (maximumHeadingLength_preferred option) = option) \<and>
   (typeof option \<noteq> ''number'' \<or> option = Number NaN \<longrightarrow>
      maximumHeadingLength_preferred option = Num 60)"
proof (cases option)
  case (Number n)
  then show ?thesis by (cases n) (simp_all add: maximumHeadingLength_preferred_def)
qed (simp_all add: maximumHeadingLength_preferred_def)

theorem threshold_resolution_witness:
  "maximumHeadingLength_preferred (Number (Num 40)) = Num 40 \<and>
   maximumHeadingLength_preferred (Number NegInfinity) = NegInfinity \<and>
   maximumHeadingLength_preferred (Number NaN) = Num 60 \<and>
   maximumHeadingLength_preferred Undefined = Num 60 \<and>
   maximumHeadingLength_preferred (String ''40'') = Num 60"
  using threshold_resolution [of "Number (Num 40)"] threshold_resolution [of "Number NegInfinity"]
    threshold_resolution [of "Number NaN"] threshold_resolution [of Undefined]
    threshold_resolution [of "String ''40''"]
  by simp




text \<open>
  C6. With \<open>checkBlanks\<close> an item makes the list loose exactly when two adjacent
  children of it are more than one line apart (the start line of the next minus the end
  line of the current exceeds 1). This predicate is used instead of the multiline one,
  and some list is loose under the one and tight under the other.
\<close>

theorem blank_line_mode:
  "(node_children item = Some content \<longrightarrow>
      inferBlankLine item = Inr (internal_blank_line content) \<and>
      infer True item index isTightList = (Normal, isTightList \<and> \<not> internal_blank_line content)) \<and>
   ((\<forall>item \<in> set items. node_children item \<noteq> None) \<longrightarrow>
      forEach (infer True) items True =
        (Normal, \<not> (\<exists>item \<in> set items. inferBlankLine item = Inr True))) \<and>
   (\<exists>list. forEach (infer False) list True = (Normal, False) \<and>
           forEach (infer True) list True = (Normal, True))"
proof -
  have a: "node_children item = Some content \<longrightarrow>
      inferBlankLine item = Inr (internal_blank_line content) \<and>
      infer True item index isTightList = (Normal, isTightList \<and> \<not> internal_blank_line content)"
    by (simp add: infer_result inferBlankLine_children)
  have b: "(\<forall>item \<in> set items. node_children item \<noteq> None) \<longrightarrow>
      forEach (infer True) items True =
        (Normal, \<not> (\<exists>item \<in> set items. inferBlankLine item = Inr True))"
    using forEach_from_infer [of items 0 True True]
    by (simp add: forEach_def classified_loose_def forces_loose_def)
  have "forEach (infer False) nested_items True = (Normal, False) \<and>
        forEach (infer True) nested_items True = (Normal, True)"
    by code_simp
  then have c: "\<exists>list. forEach (infer False) list True = (Normal, False) \<and>
           forEach (infer True) list True = (Normal, True)" ..
  from a b c show ?thesis by (intro conjI)
qed

theorem blank_line_mode_witness:
  "node_children (listItem (span 1 1 3 9) [block ''paragraph'' (span 1 5 1 11), block ''list'' (span 3 5 3 9)]) =
     Some [block ''paragraph'' (span 1 5 1 11), block ''list'' (span 3 5 3 9)] \<and>
   inferBlankLine (listItem (span 1 1 3 9) [block ''paragraph'' (span 1 5 1 11), block ''list'' (span 3 5 3 9)]) =
     Inr True \<and>
   list_all (\<lambda>item. node_children item \<noteq> None) nested_items \<and>
   forEach (infer True) nested_items True = (Normal, True)"
proof -
  let ?content = "[block ''paragraph'' (span 1 5 1 11), block ''list'' (span 3 5 3 9)]"
  let ?item = "listItem (span 1 1 3 9) ?content"
  have c: "node_children ?item = Some ?content" by (simp add: listItem_def)
  have i: "internal_blank_line ?content" by code_simp
  have h: "\<forall>item \<in> set nested_items. node_children item \<noteq> None" by code_simp
  have n: "\<not> (\<exists>item \<in> set nested_items. inferBlankLine item = Inr True)" by code_simp
  note t = blank_line_mode [of ?item ?content 0 True nested_items]
  from t c i have a: "inferBlankLine ?item = Inr True" by simp
  from t h n have b: "forEach (infer True) nested_items True = (Normal, True)" by simp
  from h have h': "list_all (\<lambda>item. node_children item \<noteq> None) nested_items"
    by (simp add: list_all_iff)
  from c a h' b show ?thesis by (intro conjI)
qed

text \<open>
  C7. The blank-line mode is on exactly when the option is an object with a truthy
  \<open>checkBlanks\<close>. Resolving the option never throws; with any other option the rule
  does what it does without an option, and no option makes the rule throw where it would
  not throw without one.
\<close>

theorem option_resolution:
  "listItemSpacing_blanks option = Inr (checkBlanks_set option) \<and>
   listItemSpacing ast file option =
     visit ast ''list'' (listItemSpacing_visitor (checkBlanks_set option)) \<lparr>w_tree = ast, w_file = file\<rparr> \<and>
   (\<not> checkBlanks_set option \<longrightarrow> listItemSpacing ast file option = listItemSpacing ast file Undefined) \<and>
   fst (listItemSpacing ast file option) = fst (listItemSpacing ast file Undefined)"
proof -
  have u: "\<not> checkBlanks_set Undefined" by (simp add: checkBlanks_set_def)
  have c: "\<not> checkBlanks_set option \<longrightarrow> listItemSpacing ast file option = listItemSpacing ast file Undefined"
    using u by (simp add: listItemSpacing_visit)
  have d: "fst (listItemSpacing ast file option) = fst (listItemSpacing ast file Undefined)"
    unfolding listItemSpacing_visit
    by (rule visit_completion) (simp only: listItemSpacing_visitor_completion)
  from listItemSpacing_blanks_result listItemSpacing_visit c d show ?thesis by (intro conjI)
qed

theorem option_resolution_witness:
  "checkBlanks_set (Object [(''checkBlanks'', Boolean True)]) \<and>
   listItemSpacing_blanks (Object [(''checkBlanks'', Boolean True)]) = Inr True \<and>
   \<not> checkBlanks_set (Object [(''checkBlanks'', Number (Num 0))]) \<and>
   \<not> checkBlanks_set Null \<and> \<not> checkBlanks_set (Boolean True) \<and>
   listItemSpacing_blanks Null = Inr False \<and>
   listItemSpacing nested_list empty_file (Boolean True) = listItemSpacing nested_list empty_file Undefined \<and>
   listItemSpacing nested_list empty_file (Object [(''checkBlanks'', Number (Num 0))]) =
     listItemSpacing nested_list empty_file Undefined"
proof -
  have s: "checkBlanks_set (Object [(''checkBlanks'', Boolean True)])" by code_simp
  have z: "\<not> checkBlanks_set (Object [(''checkBlanks'', Number (Num 0))])" by code_simp
  have n: "\<not> checkBlanks_set Null" by code_simp
  have b: "\<not> checkBlanks_set (Boolean True)" by code_simp
  from option_resolution [of "Object [(''checkBlanks'', Boolean True)]" nested_list empty_file] s
  have 1: "listItemSpacing_blanks (Object [(''checkBlanks'', Boolean True)]) = Inr True" by simp
  from option_resolution [of Null nested_list empty_file] n
  have 2: "listItemSpacing_blanks Null = Inr False" by simp
  from option_resolution [of "Boolean True" nested_list empty_file] b
  have 3: "listItemSpacing nested_list empty_file (Boolean True) = listItemSpacing nested_list empty_file Undefined"
    by blast
  from option_resolution [of "Object [(''checkBlanks'', Number (Num 0))]" nested_list empty_file] z
  have 4: "listItemSpacing nested_list empty_file (Object [(''checkBlanks'', Number (Num 0))]) =
     listItemSpacing nested_list empty_file Undefined" by blast
  from s 1 z n b 2 3 4 show ?thesis by (intro conjI)
qed

text \<open>
  C8. Both rules leave the tree as it was; the file they leave is the file they were
  given with messages appended.
\<close>

theorem rules_read_only:
  "(\<exists>ms. snd (maximumHeadingLength toStr numberToString tree file option) =
           \<lparr>w_tree = tree, w_file = file\<lparr>messages := messages file @ ms\<rparr>\<rparr>) \<and>
   (\<exists>ms. snd (listItemSpacing tree file option) =
           \<lparr>w_tree = tree, w_file = file\<lparr>messages := messages file @ ms\<rparr>\<rparr>)"
proof -
  have a: "\<exists>ms. snd (maximumHeadingLength toStr numberToString tree file option) =
           \<lparr>w_tree = tree, w_file = file\<lparr>messages := messages file @ ms\<rparr>\<rparr>"
    by (rule exI) (simp add: maximumHeadingLength_reports add_messages_def)
  obtain ms where "snd (listItemSpacing tree file option) = add_messages ms \<lparr>w_tree = tree, w_file = file\<rparr>"
    unfolding listItemSpacing_visit
    using visit_extends [of "listItemSpacing_visitor (checkBlanks_set option)" tree "''list''"
        "\<lparr>w_tree = tree, w_file = file\<rparr>"] listItemSpacing_visitor_extends
    by blast
  then have b: "\<exists>ms. snd (listItemSpacing tree file option) =
           \<lparr>w_tree = tree, w_file = file\<lparr>messages := messages file @ ms\<rparr>\<rparr>"
    by (auto simp: add_messages_def)
  from a b show ?thesis by (intro conjI)
qed

theorem rules_read_only_witness:
  "w_tree (snd (maximumHeadingLength toString integerToString long_heading empty_file (Number (Num 40)))) =
     long_heading \<and>
   w_tree (snd (listItemSpacing wrapped_list empty_file Undefined)) = wrapped_list"
proof -
  obtain ms ms' where
    "snd (maximumHeadingLength toString integerToString long_heading empty_file (Number (Num 40))) =
       \<lparr>w_tree = long_heading, w_file = empty_file\<lparr>messages := messages empty_file @ ms\<rparr>\<rparr>"
    "snd (listItemSpacing long_heading empty_file (Number (Num 40))) =
       \<lparr>w_tree = long_heading, w_file = empty_file\<lparr>messages := messages empty_file @ ms'\<rparr>\<rparr>"
    using rules_read_only [of toString integerToString long_heading empty_file "Number (Num 40)"]
    by blast
  moreover obtain ns ns' where
    "snd (maximumHeadingLength toString integerToString wrapped_list empty_file Undefined) =
       \<lparr>w_tree = wrapped_list, w_file = empty_file\<lparr>messages := messages empty_file @ ns\<rparr>\<rparr>"
    "snd (listItemSpacing wrapped_list empty_file Undefined) =
       \<lparr>w_tree = wrapped_list, w_file = empty_file\<lparr>messages := messages empty_file @ ns'\<rparr>\<rparr>"
    using rules_read_only [of toString integerToString wrapped_list empty_file Undefined]
    by blast
  ultimately show ?thesis by simp
qed

text \<open>
  C9. A list with a position and exactly one item: the list rule emits no message,
  whatever the item contains and in both modes; the only item is the last one.
\<close>

theorem single_item_list_silent:
  assumes "\<not> generated node" and "node_children node = Some [item]"
  shows "snd (listItemSpacing_visitor blanks node w) = w"
proof (cases "node_children item")
  case None
  then have "forEach (infer blanks) [item] True = (Throw TypeError, True)"
    by (simp add: forEach_def infer_children_None)
  then show ?thesis using assms by (simp add: listItemSpacing_visitor_def)
next
  case (Some content)
  then have "forEach (infer blanks) [item] True = (Normal, True \<and> \<not> classified_loose blanks [item])"
    unfolding forEach_def by (intro forEach_from_infer) simp
  then have "listItemSpacing_visitor blanks node w =
      (Normal, add_messages (list_messages node (True \<and> \<not> classified_loose blanks [item]) [item]) w)"
    using assms by (intro listItemSpacing_visitor_reports)
  then show ?thesis by (simp add: list_messages_def add_messages_Nil)
qed

theorem single_item_list_silent_witness:
  "\<not> generated single_list \<and>
   snd (listItemSpacing_visitor False single_list \<lparr>w_tree = single_list, w_file = empty_file\<rparr>) =
     \<lparr>w_tree = single_list, w_file = empty_file\<rparr> \<and>
   snd (listItemSpacing_visitor True single_list \<lparr>w_tree = single_list, w_file = empty_file\<rparr>) =
     \<lparr>w_tree = single_list, w_file = empty_file\<rparr>"
proof -
  have g: "\<not> generated single_list" by code_simp
  have c: "node_children single_list =
             Some [listItem (span 1 1 2 9) [block ''paragraph'' (span 1 5 2 9)]]"
    by (simp add: single_list_def)
  show ?thesis
    using g single_item_list_silent [OF g c, of False] single_item_list_silent [OF g c, of True]
    by simp
qed

text \<open>
  C10. A list item with zero children: both inference predicates return false, without
  failing, so the item never makes the list loose. The position utility returns null
  coordinates for the missing first and last child.
\<close>

theorem empty_item_not_loose:
  assumes "node_children item = Some []"
  shows "inferBlankLine item = Inr False \<and> inferMultiline item = Inr False \<and>
         infer blanks item index isTightList = (Normal, isTightList)"
proof -
  have b: "inferBlankLine item = Inr False"
    using inferBlankLine_children [OF assms] by (simp add: internal_blank_line_def)
  have m: "inferMultiline item = Inr False"
    using inferMultiline_children [OF assms] by (simp add: multiline_def)
  have "infer blanks item index isTightList = (Normal, isTightList)"
    by (simp add: infer_result b m)
  with b m show ?thesis by simp
qed

theorem empty_item_not_loose_witness:
  "node_children empty_item = Some [] \<and>
   inferBlankLine empty_item = Inr False \<and> inferMultiline empty_item = Inr False \<and>
   infer True empty_item 0 True = (Normal, True)"
proof -
  have h: "node_children empty_item = Some []"
    by (simp add: empty_item_def listItem_def)
  show ?thesis using h empty_item_not_loose [OF h, of True 0 True] by simp
qed

end
